theory Spec2Isabelle
  imports Main "HOL-Library.Word"
begin

section \<open>The values the service handles\<close>

text \<open>
  The service of \<^verbatim>\<open>src/s3/s3.service.ts\<close> is a class with two fields, the SDK client and a
  region string, and four asynchronous methods. Every method makes one call of
  \<^verbatim>\<open>this.s3Client.send(command)\<close> and works on what comes back. The client and the remote
  store behind it are not code of the repository, so the client is a parameter of the
  embedding: a function from the state of the remote store and a command to the outcome of
  the call (a rejection or a response) and the state the call leaves behind. A method is a
  function of the service object and the store state; it returns its outcome (\<open>Inl\<close> for a
  thrown error, \<open>Inr\<close> for the resolved value) together with the store state afterwards.

  A JavaScript string is a sequence of code units. It is embedded as \<^typ>\<open>string\<close>, one
  \<^typ>\<open>char\<close> for each code unit, so \<^const>\<open>length\<close> and list positions are the
  \<^verbatim>\<open>length\<close> and the indices of the source. A \<^verbatim>\<open>Uint8Array\<close> or \<^verbatim>\<open>Buffer\<close> is a list of
  bytes.
\<close>

type_synonym byte = "8 word"
type_synonym bytes = "byte list"

text \<open>
  A thrown value: the SDK rejects with \<^verbatim>\<open>Error\<close> objects, which carry a name and a message.
  \<^verbatim>\<open>new Error(msg)\<close> makes one whose name is \<^verbatim>\<open>Error\<close>.
\<close>

datatype js_error = JsError (name: string) (message: string)

definition new_Error :: "string \<Rightarrow> js_error" where
  "new_Error msg = JsError ''Error'' msg"

text \<open>
  A Node \<^verbatim>\<open>Readable\<close> as the \<^verbatim>\<open>for await\<close> loop sees it: chunks one after the other, then
  the end of the stream, or an error with which the stream is destroyed. The datatype holds
  the streams that come to an end.
\<close>

datatype readable = End | Chunk bytes readable | Destroyed js_error

text \<open>
  The \<^verbatim>\<open>Body\<close> of a response is a \<^verbatim>\<open>Readable\<close> or some other value (a web
  \<^verbatim>\<open>ReadableStream\<close>, a \<^verbatim>\<open>Blob\<close>); \<^verbatim>\<open>undefined\<close> is \<open>None\<close> of the option type.
\<close>

datatype body = Readable readable | NotReadable

text \<open>
  An entry of a listing. The SDK declares \<^verbatim>\<open>Key\<close> optional; the source reads it as
  \<^verbatim>\<open>item.Key!\<close>, the assertion that it is there, and the embedding gives every entry its key.
\<close>

datatype s3_object = S3Object (Key: string)

text \<open>
  The three commands, with the fields of their input objects in the order
  \<^verbatim>\<open>Bucket\<close>, \<^verbatim>\<open>Key\<close>, \<^verbatim>\<open>Body\<close>, \<^verbatim>\<open>ContentType\<close> for a put, \<^verbatim>\<open>Bucket\<close>, \<^verbatim>\<open>Key\<close> for a get
  and \<^verbatim>\<open>Bucket\<close>, \<^verbatim>\<open>Prefix\<close> for a listing. The payload has type \<^verbatim>\<open>any\<close> in the source
  and is a type parameter here.
\<close>

datatype 'd command =
    PutObjectCommand string string 'd string
  | GetObjectCommand string string
  | ListObjectsV2Command string string

datatype response =
    PutObjectCommandOutput string
  | GetObjectCommandOutput "body option"
  | ListObjectsV2CommandOutput "s3_object list option"

text \<open>Reading a property of a response that does not have it gives \<^verbatim>\<open>undefined\<close>.\<close>

fun Body :: "response \<Rightarrow> body option" where
  "Body (GetObjectCommandOutput b) = b"
| "Body (PutObjectCommandOutput etag) = None"
| "Body (ListObjectsV2CommandOutput c) = None"

fun Contents :: "response \<Rightarrow> s3_object list option" where
  "Contents (ListObjectsV2CommandOutput c) = c"
| "Contents (PutObjectCommandOutput etag) = None"
| "Contents (GetObjectCommandOutput b) = None"

type_synonym ('st, 'd) S3Client = "'st \<Rightarrow> 'd command \<Rightarrow> (js_error + response) \<times> 'st"

record ('st, 'd) S3Service =
  s3Client :: "('st, 'd) S3Client"
  region :: string

section \<open>Upload\<close>

definition uploadToS3 ::
  "('st, 'd) S3Service \<Rightarrow> 'st \<Rightarrow> string \<Rightarrow> string \<Rightarrow> 'd \<Rightarrow> string \<Rightarrow> (js_error + response) \<times> 'st"
where
  "uploadToS3 this st bucketName filePath payload mimeType =
     (let command = PutObjectCommand bucketName filePath payload mimeType in
      case s3Client this st command of
        (Inr response, st') \<Rightarrow> (Inr response, st')
      | (Inl err, st') \<Rightarrow>
          (Inl (new_Error (''Error uploading to S3: '' @ message err)), st'))"

section \<open>Download\<close>

text \<open>
  The loop \<^verbatim>\<open>for await (const chunk of response.Body) chunks.push(chunk)\<close>: it returns the
  chunks pushed when the stream ends and throws the stream's error when it is destroyed.
\<close>

fun drain :: "readable \<Rightarrow> bytes list \<Rightarrow> js_error + bytes list" where
  "drain End chunks = Inr chunks"
| "drain (Chunk chunk rest) chunks = drain rest (chunks @ [chunk])"
| "drain (Destroyed err) chunks = Inl err"

text \<open>
  \<^verbatim>\<open>Buffer.concat(chunks)\<close> is \<^const>\<open>concat\<close>. \<^verbatim>\<open>buffer.toString('utf-8')\<close> is the
  runtime's decoder, a parameter \<open>toString\<close> of the text download.
\<close>

definition getFromS3 ::
  "(bytes \<Rightarrow> string) \<Rightarrow> ('st, 'd) S3Service \<Rightarrow> 'st \<Rightarrow> string \<Rightarrow> string \<Rightarrow> (js_error + string) \<times> 'st"
where
  "getFromS3 toString this st bucketName filePath =
     (let command = GetObjectCommand bucketName filePath in
      case s3Client this st command of
        (Inl err, st') \<Rightarrow>
          (Inl (new_Error (''Error retrieving from S3: '' @ message err)), st')
      | (Inr response, st') \<Rightarrow>
          (case Body response of
             Some (Readable stream) \<Rightarrow>
               (case drain stream [] of
                  Inr chunks \<Rightarrow> (Inr (toString (concat chunks)), st')
                | Inl err \<Rightarrow>
                    (Inl (new_Error (''Error retrieving from S3: '' @ message err)), st'))
           | _ \<Rightarrow>
               (Inl (new_Error (''Error retrieving from S3: ''
                      @ message (new_Error ''Unexpected response body type''))), st')))"

definition getFromS3AsBinary ::
  "('st, 'd) S3Service \<Rightarrow> 'st \<Rightarrow> string \<Rightarrow> string \<Rightarrow> (js_error + bytes) \<times> 'st"
where
  "getFromS3AsBinary this st bucketName filePath =
     (let command = GetObjectCommand bucketName filePath in
      case s3Client this st command of
        (Inl err, st') \<Rightarrow>
          (Inl (new_Error (''Error retrieving from S3: '' @ message err)), st')
      | (Inr response, st') \<Rightarrow>
          (case Body response of
             Some (Readable stream) \<Rightarrow>
               (case drain stream [] of
                  Inr chunks \<Rightarrow> (Inr (concat chunks), st')
                | Inl err \<Rightarrow>
                    (Inl (new_Error (''Error retrieving from S3: '' @ message err)), st'))
           | _ \<Rightarrow>
               (Inl (new_Error (''Error retrieving from S3: ''
                      @ message (new_Error ''Unexpected response body type''))), st')))"

section \<open>The most recent file\<close>

text \<open>
  \<^verbatim>\<open>s.slice(start, end)\<close> of ECMAScript: a negative index counts from the end of the string,
  both indices are clamped to the string, and the result is empty when the first is not
  before the second.
\<close>

definition js_slice :: "'a list \<Rightarrow> int \<Rightarrow> int \<Rightarrow> 'a list" where
  "js_slice s start fin =
     (let len = int (length s);
          from = (if start < 0 then max (len + start) 0 else min start len);
          to = (if fin < 0 then max (len + fin) 0 else min fin len)
      in if to \<le> from then [] else take (nat (to - from)) (drop (nat from) s))"

text \<open>\<^verbatim>\<open>key.includes('_')\<close> with a one-character argument.\<close>

definition js_includes :: "string \<Rightarrow> char \<Rightarrow> bool" where
  "js_includes key c = (c \<in> set key)"

text \<open>
  A time value of a \<^verbatim>\<open>Date\<close> is an integer number of milliseconds or \<^verbatim>\<open>NaN\<close>, here
  \<open>None\<close>. \<^verbatim>\<open>new Date(s).getTime()\<close> for a string \<open>s\<close> is the runtime's date parser, a
  parameter \<open>dateParse\<close> of the method. The difference of two time values is \<^verbatim>\<open>NaN\<close> when
  one of them is; otherwise it has the sign of the integer difference (the rounding of the
  floating-point subtraction cannot change the sign of a difference of two integers), and
  the sort reads nothing but the sign.
\<close>

type_synonym js_number = "int option"

definition js_minus :: "js_number \<Rightarrow> js_number \<Rightarrow> js_number" where
  "js_minus x y = (case (x, y) of (Some a, Some b) \<Rightarrow> Some (a - b) | _ \<Rightarrow> None)"

text \<open>
  \<^verbatim>\<open>Array.prototype.sort(comparefn)\<close>. ECMAScript reads a \<^verbatim>\<open>NaN\<close> from the comparator as
  \<open>0\<close>, requires the sort to be stable, and fixes the result when the comparator is
  consistent: it is the stable sorted arrangement, which stable insertion computes. With an
  inconsistent comparator the order is left to the engine; every statement on the order
  below is for a listing on which the comparator is consistent.
\<close>

definition sortCompare :: "('a \<Rightarrow> 'a \<Rightarrow> js_number) \<Rightarrow> 'a \<Rightarrow> 'a \<Rightarrow> int" where
  "sortCompare comparefn x y = (case comparefn x y of None \<Rightarrow> 0 | Some v \<Rightarrow> v)"

fun js_insert :: "('a \<Rightarrow> 'a \<Rightarrow> js_number) \<Rightarrow> 'a \<Rightarrow> 'a list \<Rightarrow> 'a list" where
  "js_insert comparefn x [] = [x]"
| "js_insert comparefn x (y # ys) =
     (if sortCompare comparefn x y > 0 then y # js_insert comparefn x ys else x # y # ys)"

fun js_sort :: "('a \<Rightarrow> 'a \<Rightarrow> js_number) \<Rightarrow> 'a list \<Rightarrow> 'a list" where
  "js_sort comparefn [] = []"
| "js_sort comparefn (x # xs) = js_insert comparefn x (js_sort comparefn xs)"

text \<open>\<^verbatim>\<open>xs[0]\<close>: the first element, \<^verbatim>\<open>undefined\<close> for an empty array.\<close>

fun first_element :: "'a list \<Rightarrow> 'a option" where
  "first_element [] = None"
| "first_element (x # xs) = Some x"

text \<open>
  The date a key is sorted by, \<^verbatim>\<open>new Date(a.slice(-14, -4))\<close>, and the comparator of the
  sort, \<^verbatim>\<open>dateB.getTime() - dateA.getTime()\<close>.
\<close>

definition extractDate :: "(string \<Rightarrow> js_number) \<Rightarrow> string \<Rightarrow> js_number" where
  "extractDate dateParse a = dateParse (js_slice a (- 14) (- 4))"

definition compareFiles :: "(string \<Rightarrow> js_number) \<Rightarrow> string \<Rightarrow> string \<Rightarrow> js_number" where
  "compareFiles dateParse a b =
     (let dateA = extractDate dateParse a;
          dateB = extractDate dateParse b
      in js_minus dateB dateA)"

text \<open>
  The keys that are sorted: \<^verbatim>\<open>Contents.map((item) => item.Key!).filter((key) => key.includes('_'))\<close>.
\<close>

definition filesOf :: "s3_object list \<Rightarrow> string list" where
  "filesOf contents = filter (\<lambda>key. js_includes key CHR ''_'') (map Key contents)"

text \<open>
  The method. The call of \<^verbatim>\<open>send\<close> is outside any \<^verbatim>\<open>try\<close>, so its rejection is the
  rejection of the method. The line written to the console when nothing is listed is not part
  of the result and is left out. \<open>None\<close> is the \<^verbatim>\<open>undefined\<close> the method resolves to.
\<close>

definition getMostRecentFile ::
  "(string \<Rightarrow> js_number) \<Rightarrow> ('st, 'd) S3Service \<Rightarrow> 'st \<Rightarrow> string \<Rightarrow> string
     \<Rightarrow> (js_error + string option) \<times> 'st"
where
  "getMostRecentFile dateParse this st bucketName prefix =
     (let command = ListObjectsV2Command bucketName prefix in
      case s3Client this st command of
        (Inl err, st') \<Rightarrow> (Inl err, st')
      | (Inr response, st') \<Rightarrow>
          (case Contents response of
             None \<Rightarrow> (Inr None, st')
           | Some contents \<Rightarrow>
               if length contents = 0 then (Inr None, st')
               else
                 let files = filesOf contents;
                     sortedFiles = js_sort (compareFiles dateParse) files
                 in (Inr (first_element sortedFiles), st')))"

section \<open>Notions of the specification\<close>

text \<open>
  The bytes a stream delivers when it is read to its end, \<open>None\<close> when it is destroyed
  before. This is the content of a response body, stated without the loop of the source.
\<close>

fun stream_bytes :: "readable \<Rightarrow> bytes option" where
  "stream_bytes End = Some []"
| "stream_bytes (Chunk chunk rest) = map_option (\<lambda>bs. chunk @ bs) (stream_bytes rest)"
| "stream_bytes (Destroyed err) = None"

text \<open>
  The round trip through the remote store is the store's work, not the wrapper's. A client
  stores faithfully when, after a put that it reports as done, a get of the same bucket and
  key answers with a \<^verbatim>\<open>Readable\<close> that delivers the bytes the put sent: \<open>wire payload\<close>,
  the bytes themselves for a binary payload and the UTF-8 encoding for a text.
\<close>

definition stores_faithfully :: "('d \<Rightarrow> bytes) \<Rightarrow> ('st, 'd) S3Client \<Rightarrow> bool" where
  "stores_faithfully wire send \<longleftrightarrow>
     (\<forall>st bucket key payload mimeType out st'.
        send st (PutObjectCommand bucket key payload mimeType) = (Inr out, st') \<longrightarrow>
        (\<exists>stream st''.
           send st' (GetObjectCommand bucket key)
             = (Inr (GetObjectCommandOutput (Some (Readable stream))), st'')
           \<and> stream_bytes stream = Some (wire payload)))"

text \<open>
  The characters of \<open>s\<close> at the positions from \<open>lo\<close> up to, and not including, \<open>hi\<close>:
  the substring the specification names by its positions.
\<close>

definition substring_between :: "'a list \<Rightarrow> int \<Rightarrow> int \<Rightarrow> 'a list" where
  "substring_between s lo hi = map (\<lambda>i. s ! nat i) [lo..hi - 1]"

text \<open>
  The date token of the file-name convention: the characters of a key at the positions
  \<open>length - 14\<close> to \<open>length - 5\<close>, which end 4 characters before the end of the key. For
  a key of fewer than 14 characters the first position is clamped to \<open>0\<close>.
\<close>

definition dateWindow :: "string \<Rightarrow> string" where
  "dateWindow key = substring_between key (int (length key) - 14) (int (length key) - 4)"

definition clampedWindow :: "string \<Rightarrow> string" where
  "clampedWindow key =
     substring_between key (max 0 (int (length key) - 14)) (int (length key) - 4)"

text \<open>
  The value of the date-only form \<^verbatim>\<open>YYYY-MM-DD\<close> of the ECMAScript date-time string
  format: midnight UTC of that day of the proleptic Gregorian calendar, in milliseconds
  since 1 January 1970. For a string of this form that names a day of the calendar,
  ECMAScript fixes this value. On every other string \<open>isoDate\<close> is \<open>None\<close>; engines
  differ there (some accept further forms, or a day beyond the end of the month). The
  properties are proved for every parser, and \<open>isoDate\<close> stands for the parser only in
  concrete runs, on strings on which the engines agree.
\<close>

definition digit :: "char \<Rightarrow> nat option" where
  "digit c = (let n = (of_char c :: nat) in if 48 \<le> n \<and> n \<le> 57 then Some (n - 48) else None)"

fun digits :: "string \<Rightarrow> nat \<Rightarrow> nat option" where
  "digits [] acc = Some acc"
| "digits (c # cs) acc = (case digit c of None \<Rightarrow> None | Some d \<Rightarrow> digits cs (10 * acc + d))"

definition isLeapYear :: "nat \<Rightarrow> bool" where
  "isLeapYear y \<longleftrightarrow> y mod 4 = 0 \<and> (y mod 100 \<noteq> 0 \<or> y mod 400 = 0)"

definition daysInMonth :: "nat \<Rightarrow> nat \<Rightarrow> nat" where
  "daysInMonth y m =
     (if m = 2 then (if isLeapYear y then 29 else 28)
      else if m = 4 \<or> m = 6 \<or> m = 9 \<or> m = 11 then 30 else 31)"

definition daysFromCivil :: "int \<Rightarrow> int \<Rightarrow> int \<Rightarrow> int" where
  "daysFromCivil y m d =
     (let y' = (if m \<le> 2 then y - 1 else y);
          era = y' div 400;
          yoe = y' - era * 400;
          doy = (153 * (if m > 2 then m - 3 else m + 9) + 2) div 5 + d - 1;
          doe = yoe * 365 + yoe div 4 - yoe div 100 + doy
      in era * 146097 + doe - 719468)"

definition isoDate :: "string \<Rightarrow> js_number" where
  "isoDate s =
     (if length s = 10 \<and> s ! 4 = CHR ''-'' \<and> s ! 7 = CHR ''-'' then
        (case (digits (take 4 s) 0, digits (take 2 (drop 5 s)) 0, digits (drop 8 s) 0) of
           (Some y, Some m, Some d) \<Rightarrow>
             if 1 \<le> m \<and> m \<le> 12 \<and> 1 \<le> d \<and> d \<le> daysInMonth y m
             then Some (86400000 * daysFromCivil (int y) (int m) (int d))
             else None
         | _ \<Rightarrow> None)
      else None)"

text \<open>
  The same parser with the year-only form \<^verbatim>\<open>YYYY\<close> of the format, whose value is midnight
  UTC of 1 January of that year.
\<close>

definition isoYearOrDate :: "string \<Rightarrow> js_number" where
  "isoYearOrDate s =
     (if length s = 4 then
        (case digits s 0 of
           Some y \<Rightarrow> Some (86400000 * daysFromCivil (int y) 1 1)
         | None \<Rightarrow> None)
      else isoDate s)"

section \<open>Clients for concrete runs\<close>

text \<open>A client that answers every command with the same outcome and leaves the store alone.\<close>

definition answering :: "js_error + response \<Rightarrow> (unit, bytes) S3Client" where
  "answering outcome = (\<lambda>st command. (outcome, st))"

text \<open>
  A store in memory, a list of objects under their bucket and key. A put replaces the object,
  a get answers with the object in one chunk or rejects when there is none, a listing names
  the keys of the bucket that start with the prefix.
\<close>

type_synonym memory = "((string \<times> string) \<times> bytes) list"

definition putObject :: "memory \<Rightarrow> string \<Rightarrow> string \<Rightarrow> bytes \<Rightarrow> memory" where
  "putObject st bucket key payload =
     ((bucket, key), payload) # filter (\<lambda>entry. fst entry \<noteq> (bucket, key)) st"

definition listKeys :: "memory \<Rightarrow> string \<Rightarrow> string \<Rightarrow> s3_object list" where
  "listKeys st bucket pre =
     map (\<lambda>entry. S3Object (snd (fst entry)))
       (filter (\<lambda>entry. fst (fst entry) = bucket
                  \<and> take (length pre) (snd (fst entry)) = pre) st)"

fun memoryClient :: "(memory, bytes) S3Client" where
  "memoryClient st (PutObjectCommand bucket key payload mimeType) =
     (Inr (PutObjectCommandOutput ''etag''), putObject st bucket key payload)"
| "memoryClient st (GetObjectCommand bucket key) =
     (case map_of st (bucket, key) of
        Some payload \<Rightarrow> (Inr (GetObjectCommandOutput (Some (Readable (Chunk payload End)))), st)
      | None \<Rightarrow> (Inl (JsError ''NoSuchKey'' ''The specified key does not exist.''), st))"
| "memoryClient st (ListObjectsV2Command bucket pre) =
     (let keys = listKeys st bucket pre
      in (Inr (ListObjectsV2CommandOutput (if keys = [] then None else Some keys)), st))"

text \<open>
  The same store behind a connection that drops the acknowledgement of a put: the object is
  written, and the call is rejected with a timeout.
\<close>

fun lostReplyClient :: "(memory, bytes) S3Client" where
  "lostReplyClient st (PutObjectCommand bucket key payload mimeType) =
     (Inl (JsError ''TimeoutError'' ''socket hang up''), putObject st bucket key payload)"
| "lostReplyClient st (GetObjectCommand bucket key) = memoryClient st (GetObjectCommand bucket key)"
| "lostReplyClient st (ListObjectsV2Command bucket pre) =
     memoryClient st (ListObjectsV2Command bucket pre)"

text \<open>
  A decoder for concrete runs. On bytes below 128 the UTF-8 decoding of a byte sequence has
  one code unit for each byte, the byte itself; \<open>decodeAscii\<close> is used on such bytes only.
\<close>

definition decodeAscii :: "bytes \<Rightarrow> string" where
  "decodeAscii bs = map (\<lambda>b. char_of (unat b)) bs"

section \<open>Facts about the parts\<close>

subsection \<open>Draining a stream\<close>

text \<open>Chunks pushed before the loop reaches a stream stay in front of what it delivers.\<close>

lemma drain_append:
  "drain stream chunks = map_sum id (\<lambda>cs. chunks @ cs) (drain stream [])"
proof (induction stream arbitrary: chunks)
  case End
  show ?case by simp
next
  case (Chunk chunk rest)
  have pushed: "drain rest (chunks @ [chunk])
                  = map_sum id (\<lambda>cs. (chunks @ [chunk]) @ cs) (drain rest [])"
    by (rule Chunk.IH)
  have single: "drain rest [chunk] = map_sum id (\<lambda>cs. [chunk] @ cs) (drain rest [])"
    by (rule Chunk.IH)
  show ?case using pushed single by (cases "drain rest []") simp_all
next
  case (Destroyed err)
  show ?case by simp
qed

text \<open>A stream that is read to its end gives chunks that concatenate to its bytes.\<close>

lemma drain_delivers:
  "stream_bytes stream = Some bs \<Longrightarrow> \<exists>cs. drain stream [] = Inr cs \<and> concat cs = bs"
proof (induction stream arbitrary: bs)
  case End
  then show ?case by simp
next
  case (Chunk chunk rest)
  from Chunk.prems obtain bs' where rest: "stream_bytes rest = Some bs'" and bs: "bs = chunk @ bs'"
    by auto
  from Chunk.IH [OF rest] obtain cs where cs: "drain rest [] = Inr cs" "concat cs = bs'"
    by blast
  have "drain (Chunk chunk rest) [] = map_sum id (\<lambda>cs. [chunk] @ cs) (drain rest [])"
    using drain_append [of rest "[chunk]"] by simp
  with cs bs show ?case by simp
next
  case (Destroyed err)
  then show ?case by simp
qed

subsection \<open>The sort\<close>

lemma set_js_insert: "set (js_insert comparefn x xs) = insert x (set xs)"
  by (induction xs) auto

lemma set_js_sort: "set (js_sort comparefn xs) = set xs"
  by (induction xs) (simp_all add: set_js_insert)

lemma length_js_insert: "length (js_insert comparefn x xs) = Suc (length xs)"
  by (induction xs) simp_all

lemma length_js_sort: "length (js_sort comparefn xs) = length xs"
  by (induction xs) (simp_all add: length_js_insert)

lemma first_element_None: "first_element xs = None \<longleftrightarrow> xs = []"
  by (cases xs) simp_all

lemma first_element_mem: "first_element xs = Some x \<Longrightarrow> x \<in> set xs"
  by (cases xs) auto

lemma sortCompare_compareFiles:
  "extractDate dateParse a = Some ta \<Longrightarrow> extractDate dateParse b = Some tb
     \<Longrightarrow> sortCompare (compareFiles dateParse) a b = tb - ta"
  by (simp add: sortCompare_def compareFiles_def js_minus_def)

text \<open>
  When every key has a date, the comparator is consistent and the sort is the stable sort of
  the library by descending time: the arrangement ECMAScript prescribes.
\<close>

lemma js_insert_insort_key:
  assumes "\<forall>k \<in> set (x # xs). extractDate dateParse k = Some (t k)"
  shows "js_insert (compareFiles dateParse) x xs = insort_key (\<lambda>k. - t k) x xs"
  using assms
proof (induction xs)
  case Nil
  show ?case by simp
next
  case (Cons y ys)
  have cmp: "sortCompare (compareFiles dateParse) x y = t y - t x"
    using Cons.prems by (simp add: sortCompare_compareFiles)
  have "js_insert (compareFiles dateParse) x ys = insort_key (\<lambda>k. - t k) x ys"
    using Cons.prems by (intro Cons.IH) simp
  with cmp show ?case by auto
qed

lemma js_sort_sort_key:
  assumes "\<forall>k \<in> set xs. extractDate dateParse k = Some (t k)"
  shows "js_sort (compareFiles dateParse) xs = sort_key (\<lambda>k. - t k) xs"
  using assms
proof (induction xs)
  case Nil
  show ?case by simp
next
  case (Cons x xs)
  have IH: "js_sort (compareFiles dateParse) xs = sort_key (\<lambda>k. - t k) xs"
    using Cons.prems by (intro Cons.IH) simp
  have "\<forall>k \<in> set (x # sort_key (\<lambda>k. - t k) xs). extractDate dateParse k = Some (t k)"
    using Cons.prems by simp
  from js_insert_insort_key [OF this] IH show ?case by simp
qed

text \<open>
  The first element after the sort is the first listed key with the latest date: every key
  listed before it is strictly older, none listed after it is newer.
\<close>

lemma js_sort_first_latest:
  assumes "\<forall>k \<in> set xs. extractDate dateParse k = Some (t k)" and "xs \<noteq> []"
  shows "\<exists>pre r post. xs = pre @ r # post
           \<and> first_element (js_sort (compareFiles dateParse) xs) = Some r
           \<and> (\<forall>k \<in> set pre. t k < t r) \<and> (\<forall>k \<in> set post. t k \<le> t r)"
  using assms
proof (induction xs)
  case Nil
  then show ?case by simp
next
  case (Cons x xs)
  show ?case
  proof (cases "xs = []")
    case True
    then have "x # xs = [] @ x # [] \<and> first_element (js_sort (compareFiles dateParse) (x # xs)) = Some x"
      by simp
    then show ?thesis by (metis empty_iff list.set(1))
  next
    case False
    with Cons obtain pre r post where split: "xs = pre @ r # post"
      and first: "first_element (js_sort (compareFiles dateParse) xs) = Some r"
      and before: "\<forall>k \<in> set pre. t k < t r" and after: "\<forall>k \<in> set post. t k \<le> t r"
      by auto
    from first obtain rest where sorted: "js_sort (compareFiles dateParse) xs = r # rest"
      by (cases "js_sort (compareFiles dateParse) xs") auto
    have cmp: "sortCompare (compareFiles dateParse) x r = t r - t x"
      using Cons.prems split by (simp add: sortCompare_compareFiles)
    show ?thesis
    proof (cases "t x < t r")
      case True
      then have "first_element (js_sort (compareFiles dateParse) (x # xs)) = Some r"
        using sorted cmp by simp
      moreover have "x # xs = (x # pre) @ r # post" using split by simp
      moreover have "\<forall>k \<in> set (x # pre). t k < t r" using True before by simp
      ultimately show ?thesis using after by blast
    next
      case False
      then have "first_element (js_sort (compareFiles dateParse) (x # xs)) = Some x"
        using sorted cmp by simp
      moreover have "x # xs = [] @ x # xs" by simp
      moreover have "\<forall>k \<in> set xs. t k \<le> t x"
        using False before after split by fastforce
      ultimately show ?thesis by (metis empty_iff list.set(1))
    qed
  qed
qed

lemma find_first:
  assumes "xs = pre @ r # post" and "P r" and "\<forall>k \<in> set pre. \<not> P k"
  shows "List.find P xs = Some r"
  using assms by (induction pre arbitrary: xs) auto

text \<open>The sort reads the comparator on the elements of the list only.\<close>

lemma js_insert_cong:
  assumes "\<forall>y \<in> set ys. f x y = g x y"
  shows "js_insert f x ys = js_insert g x ys"
  using assms by (induction ys) (simp_all add: sortCompare_def)

lemma js_sort_cong:
  assumes "\<forall>a \<in> set xs. \<forall>b \<in> set xs. f a b = g a b"
  shows "js_sort f xs = js_sort g xs"
  using assms
proof (induction xs)
  case Nil
  show ?case by simp
next
  case (Cons x xs)
  have IH: "js_sort f xs = js_sort g xs" using Cons.prems by (intro Cons.IH) simp
  have "\<forall>y \<in> set (js_sort g xs). f x y = g x y"
    using Cons.prems by (simp add: set_js_sort)
  then have "js_insert f x (js_sort g xs) = js_insert g x (js_sort g xs)"
    by (rule js_insert_cong)
  with IH show ?case by simp
qed

subsection \<open>The slice\<close>

lemma substring_between_take_drop:
  assumes "a \<le> b" and "b \<le> length s"
  shows "substring_between s (int a) (int b) = take (b - a) (drop a s)"
proof (rule nth_equalityI)
  show len: "length (substring_between s (int a) (int b)) = length (take (b - a) (drop a s))"
    using assms by (simp add: substring_between_def)
  fix i assume "i < length (substring_between s (int a) (int b))"
  then have i: "i < b - a" using assms by (simp add: substring_between_def)
  then have "[int a..int b - 1] ! i = int a + int i"
    by (intro nth_upto) linarith
  then show "substring_between s (int a) (int b) ! i = take (b - a) (drop a s) ! i"
    using i assms by (simp add: substring_between_def nat_add_distrib)
qed

lemma js_slice_date_long:
  assumes "14 \<le> length key"
  shows "js_slice key (- 14) (- 4) = take 10 (drop (length key - 14) key)"
  using assms by (simp add: js_slice_def Let_def nat_diff_distrib)

lemma js_slice_date_short:
  assumes "length key < 14"
  shows "js_slice key (- 14) (- 4) = take (length key - 4) key"
  using assms by (auto simp add: js_slice_def Let_def nat_diff_distrib max_def)

lemma short_window:
  assumes "length key < 14"
  shows "js_slice key (- 14) (- 4)
           = substring_between key (max 0 (int (length key) - 14)) (int (length key) - 4)"
proof (cases "4 \<le> length key")
  case True
  have "substring_between key (int 0) (int (length key - 4)) = take (length key - 4 - 0) (drop 0 key)"
    by (rule substring_between_take_drop) simp_all
  moreover have "int (length key - 4) = int (length key) - 4" using True by simp
  moreover have "max 0 (int (length key) - 14) = 0" using assms by simp
  ultimately show ?thesis using js_slice_date_short [OF assms] by simp
next
  case False
  then have "substring_between key (max 0 (int (length key) - 14)) (int (length key) - 4) = []"
    by (simp add: substring_between_def)
  with False js_slice_date_short [OF assms] show ?thesis by simp
qed

text \<open>The slice of the source is the clamped window, and the date token for a long key.\<close>

lemma js_slice_clampedWindow: "js_slice key (- 14) (- 4) = clampedWindow key"
proof (cases "length key < 14")
  case True
  then show ?thesis by (simp add: short_window clampedWindow_def)
next
  case False
  then have long: "14 \<le> length key" by simp
  have "substring_between key (int (length key - 14)) (int (length key - 4))
          = take ((length key - 4) - (length key - 14)) (drop (length key - 14) key)"
    by (rule substring_between_take_drop) simp_all
  moreover have "(length key - 4) - (length key - 14) = 10" using long by simp
  moreover have "int (length key - 14) = int (length key) - 14"
    and "int (length key - 4) = int (length key) - 4" using long by simp_all
  moreover have "max 0 (int (length key) - 14) = int (length key) - 14" using long by simp
  ultimately show ?thesis using js_slice_date_long [OF long] by (simp add: clampedWindow_def)
qed

lemma dateWindow_long:
  assumes "14 \<le> length key"
  shows "dateWindow key = clampedWindow key" and "length (dateWindow key) = 10"
proof -
  have "max 0 (int (length key) - 14) = int (length key) - 14" using assms by simp
  then show eq: "dateWindow key = clampedWindow key"
    by (simp add: dateWindow_def clampedWindow_def)
  have "length (js_slice key (- 14) (- 4)) = 10"
    using assms by (simp add: js_slice_date_long)
  then show "length (dateWindow key) = 10" by (simp add: eq js_slice_clampedWindow)
qed

lemma clampedWindow_short:
  assumes "length key < 14"
  shows "length (clampedWindow key) < 10"
proof -
  have "length (js_slice key (- 14) (- 4)) < 10"
    using assms by (simp add: js_slice_date_short)
  then show ?thesis by (simp add: js_slice_clampedWindow)
qed

subsection \<open>The listing\<close>

lemma filesOf_iff:
  "key \<in> set (filesOf contents) \<longleftrightarrow> key \<in> Key ` set contents \<and> CHR ''_'' \<in> set key"
  by (auto simp add: filesOf_def js_includes_def)

lemma filesOf_empty:
  "filesOf contents = [] \<longleftrightarrow> (\<forall>item \<in> set contents. CHR ''_'' \<notin> set (Key item))"
  by (auto simp add: filesOf_def js_includes_def filter_empty_conv)

lemma getMostRecentFile_listed:
  assumes "s3Client this st (ListObjectsV2Command bucketName prefix) = (Inr response, st')"
    and "Contents response = Some contents"
  shows "getMostRecentFile dateParse this st bucketName prefix
           = (Inr (first_element (js_sort (compareFiles dateParse) (filesOf contents))), st')"
proof (cases "contents = []")
  case True
  with assms show ?thesis by (simp add: getMostRecentFile_def filesOf_def)
next
  case False
  with assms show ?thesis by (simp add: getMostRecentFile_def Let_def)
qed

text \<open>The method reads the parser at the windows of the sorted keys and nowhere else.\<close>

lemma getMostRecentFile_parser:
  assumes "s3Client this st (ListObjectsV2Command bucketName prefix) = (Inr response, st')"
    and "Contents response = Some contents"
    and "\<forall>key \<in> set (filesOf contents). other (clampedWindow key) = dateParse (clampedWindow key)"
  shows "getMostRecentFile other this st bucketName prefix
           = getMostRecentFile dateParse this st bucketName prefix"
proof -
  have "\<forall>a \<in> set (filesOf contents). \<forall>b \<in> set (filesOf contents).
          compareFiles other a b = compareFiles dateParse a b"
    using assms(3) by (simp add: compareFiles_def extractDate_def js_slice_clampedWindow)
  then have "js_sort (compareFiles other) (filesOf contents)
               = js_sort (compareFiles dateParse) (filesOf contents)"
    by (rule js_sort_cong)
  then show ?thesis
    by (simp add: getMostRecentFile_listed [OF assms(1,2)])
qed

text \<open>
  A key whose window holds a date later than the date of every other sorted key is the key
  the method returns, wherever the listing names it.
\<close>

lemma getMostRecentFile_winner:
  assumes "s3Client this st (ListObjectsV2Command bucketName prefix) = (Inr response, st')"
    and "Contents response = Some contents"
    and k: "k \<in> set (filesOf contents)"
    and tk: "dateParse (clampedWindow k) = Some tk"
    and others: "\<forall>key \<in> set (filesOf contents). key \<noteq> k
                   \<longrightarrow> (\<exists>t'. dateParse (clampedWindow key) = Some t' \<and> t' < tk)"
  shows "getMostRecentFile dateParse this st bucketName prefix = (Inr (Some k), st')"
proof -
  define t where "t key = (case dateParse (clampedWindow key) of Some v \<Rightarrow> v | None \<Rightarrow> 0)" for key
  have dated: "\<forall>key \<in> set (filesOf contents). extractDate dateParse key = Some (t key)"
  proof
    fix key assume "key \<in> set (filesOf contents)"
    then have "\<exists>v. dateParse (clampedWindow key) = Some v"
      using tk others by (cases "key = k") auto
    then show "extractDate dateParse key = Some (t key)"
      by (auto simp add: extractDate_def js_slice_clampedWindow t_def)
  qed
  have "filesOf contents \<noteq> []" using k by auto
  from js_sort_first_latest [OF dated this] obtain pre r post where
    split: "filesOf contents = pre @ r # post"
    and first: "first_element (js_sort (compareFiles dateParse) (filesOf contents)) = Some r"
    and before: "\<forall>key \<in> set pre. t key < t r" and after: "\<forall>key \<in> set post. t key \<le> t r"
    by blast
  have r: "r \<in> set (filesOf contents)" using split by simp
  have "k \<in> set pre \<or> k = r \<or> k \<in> set post" using k split by auto
  then have le: "t k \<le> t r" using before after by auto
  have "r = k"
  proof (rule ccontr)
    assume "r \<noteq> k"
    with others r obtain t' where "dateParse (clampedWindow r) = Some t'" "t' < tk" by blast
    then have "t r < t k" using tk by (simp add: t_def)
    with le show False by simp
  qed
  with first show ?thesis by (simp add: getMostRecentFile_listed [OF assms(1,2)])
qed

subsection \<open>The concrete runs\<close>

lemma memoryClient_stores_faithfully: "stores_faithfully id memoryClient"
  by (auto simp add: stores_faithfully_def putObject_def)

lemma decodeAscii_example: "decodeAscii [104, 105, 33] = ''hi!''"
  by code_simp

lemma example_dates:
  "isoDate ''2024-01-01'' = Some 1704067200000"
  "isoDate ''2024-06-15'' = Some 1718409600000"
  by (simp_all add: isoDate_def digit_def daysInMonth_def isLeapYear_def daysFromCivil_def)

lemma example_slices:
  "js_slice ''report_2024-01-01.pdf'' (- 14) (- 4) = ''2024-01-01''"
  "js_slice ''report_2024-06-15.pdf'' (- 14) (- 4) = ''2024-06-15''"
  "js_slice ''backup_2024-06-15.pdf'' (- 14) (- 4) = ''2024-06-15''"
  by (simp_all add: js_slice_def)

lemma undated_slice: "js_slice ''a_b.pdf'' (- 14) (- 4) = ''a_b''"
  by (simp add: js_slice_def)

lemma undated_date: "isoDate ''a_b'' = None"
  by (simp add: isoDate_def)

lemma window_examples:
  "clampedWindow ''report_2024-06-15.pdf'' = ''2024-06-15''"
  "clampedWindow ''2030-01-01_report_2024-01-01.pdf'' = ''2024-01-01''"
  "clampedWindow ''1999_2024-06-15.pdf'' = ''2024-06-15''"
  "clampedWindow ''2025_old'' = ''2025''"
  "clampedWindow ''a_b.pdf'' = ''a_b''"
  by (simp_all add: js_slice_clampedWindow [symmetric] js_slice_def)

lemma year_examples:
  "isoYearOrDate ''2025'' = Some 1735689600000"
  "isoYearOrDate ''2024-06-15'' = Some 1718409600000"
  "isoYearOrDate ''a_b'' = None"
  by (simp_all add: isoYearOrDate_def example_dates undated_date digit_def daysFromCivil_def)

section \<open>The properties of the specification\<close>

text \<open>
  C1. An upload that succeeds, followed by a binary download of the same bucket and key from
  the store as the upload left it, returns exactly the bytes that were uploaded. The remote
  store is the client's: the theorem is for every client that stores faithfully, and says
  that the wrapper adds no loss of its own (the same bucket and key in both commands, the
  stream drained to its end, the chunks joined in order). It needs no condition on the bucket
  and the key, so it holds for the non-empty ones.
\<close>

theorem roundtrip:
  assumes "stores_faithfully wire (s3Client this)"
    and "uploadToS3 this st bucketName filePath payload mimeType = (Inr out, st')"
  shows "fst (getFromS3AsBinary this st' bucketName filePath) = Inr (wire payload)"
proof -
  from assms(2) have "s3Client this st (PutObjectCommand bucketName filePath payload mimeType) = (Inr out, st')"
    by (auto simp: uploadToS3_def Let_def split: prod.splits sum.splits)
  with assms(1) obtain stream st'' where
    get: "s3Client this st' (GetObjectCommand bucketName filePath)
             = (Inr (GetObjectCommandOutput (Some (Readable stream))), st'')"
    and bytes: "stream_bytes stream = Some (wire payload)"
    unfolding stores_faithfully_def by blast
  from drain_delivers [OF bytes] obtain cs where "drain stream [] = Inr cs" "concat cs = wire payload"
    by blast
  with get show ?thesis
    by (simp add: getFromS3AsBinary_def)
qed

text \<open>The round trip of three bytes through the store in memory.\<close>

theorem roundtrip_witness:
  "stores_faithfully id memoryClient
   \<and> uploadToS3 \<lparr>s3Client = memoryClient, region = ''eu-west-1''\<rparr> []
        ''bkt'' ''a.bin'' [1, 2, 3] ''application/octet-stream''
       = (Inr (PutObjectCommandOutput ''etag''), [((''bkt'', ''a.bin''), [1, 2, 3])])
   \<and> fst (getFromS3AsBinary \<lparr>s3Client = memoryClient, region = ''eu-west-1''\<rparr>
            [((''bkt'', ''a.bin''), [1, 2, 3])] ''bkt'' ''a.bin'') = Inr [1, 2, 3]"
proof -
  have faithful: "stores_faithfully id (s3Client \<lparr>s3Client = memoryClient, region = ''eu-west-1''\<rparr>)"
    by (simp add: memoryClient_stores_faithfully)
  have up: "uploadToS3 \<lparr>s3Client = memoryClient, region = ''eu-west-1''\<rparr> []
        ''bkt'' ''a.bin'' [1, 2, 3] ''application/octet-stream''
       = (Inr (PutObjectCommandOutput ''etag''), [((''bkt'', ''a.bin''), [1, 2, 3])])"
    by (simp add: uploadToS3_def putObject_def)
  from roundtrip [OF faithful up] faithful up show ?thesis by simp
qed

text \<open>
  C2. The text download is the binary download followed by the UTF-8 decoding of the runtime:
  on every outcome of the request the two methods agree, an error is the same error, and a
  body that is delivered is decoded as a whole, after all chunks are joined. When the
  response body is a stream that delivers the bytes \<open>bs\<close> of the stored object, the binary
  download returns \<open>bs\<close> and the text download returns the decoding of \<open>bs\<close>. This holds
  for every byte sequence, so for the valid UTF-8 ones.
\<close>

theorem getFromS3_decodes:
  "getFromS3 toString this st bucketName filePath
     = (map_sum id toString (fst (getFromS3AsBinary this st bucketName filePath)),
        snd (getFromS3AsBinary this st bucketName filePath))
   \<and> (s3Client this st (GetObjectCommand bucketName filePath) = (Inr response, st')
        \<and> Body response = Some (Readable stream) \<and> stream_bytes stream = Some bs
      \<longrightarrow> getFromS3AsBinary this st bucketName filePath = (Inr bs, st')
          \<and> getFromS3 toString this st bucketName filePath = (Inr (toString bs), st'))"
proof (intro conjI impI)
  show "getFromS3 toString this st bucketName filePath
     = (map_sum id toString (fst (getFromS3AsBinary this st bucketName filePath)),
        snd (getFromS3AsBinary this st bucketName filePath))"
    by (simp add: getFromS3_def getFromS3AsBinary_def Let_def
        split: prod.split sum.split option.split body.split)
next
  assume stored: "s3Client this st (GetObjectCommand bucketName filePath) = (Inr response, st')
        \<and> Body response = Some (Readable stream) \<and> stream_bytes stream = Some bs"
  then obtain chunks where "drain stream [] = Inr chunks" "concat chunks = bs"
    using drain_delivers by blast
  with stored show "getFromS3AsBinary this st bucketName filePath = (Inr bs, st')"
    by (simp add: getFromS3AsBinary_def)
next
  assume stored: "s3Client this st (GetObjectCommand bucketName filePath) = (Inr response, st')
        \<and> Body response = Some (Readable stream) \<and> stream_bytes stream = Some bs"
  then obtain chunks where "drain stream [] = Inr chunks" "concat chunks = bs"
    using drain_delivers by blast
  with stored show "getFromS3 toString this st bucketName filePath = (Inr (toString bs), st')"
    by (simp add: getFromS3_def)
qed

text \<open>An object delivered in two chunks, decoded after the chunks are joined.\<close>

theorem getFromS3_decodes_witness:
  "stream_bytes (Chunk [104] (Chunk [105, 33] End)) = Some [104, 105, 33]
   \<and> getFromS3AsBinary
        \<lparr>s3Client = answering (Inr (GetObjectCommandOutput
            (Some (Readable (Chunk [104] (Chunk [105, 33] End)))))), region = ''eu-west-1''\<rparr>
        () ''bkt'' ''a.txt'' = (Inr [104, 105, 33], ())
   \<and> getFromS3 decodeAscii
        \<lparr>s3Client = answering (Inr (GetObjectCommandOutput
            (Some (Readable (Chunk [104] (Chunk [105, 33] End)))))), region = ''eu-west-1''\<rparr>
        () ''bkt'' ''a.txt'' = (Inr ''hi!'', ())"
proof -
  let ?stream = "Chunk [104] (Chunk [105, 33] End)"
  let ?response = "GetObjectCommandOutput (Some (Readable ?stream))"
  let ?svc = "\<lparr>s3Client = answering (Inr ?response), region = ''eu-west-1''\<rparr>"
  have send: "s3Client ?svc () (GetObjectCommand ''bkt'' ''a.txt'') = (Inr ?response, ())"
    by (simp add: answering_def)
  have body: "Body ?response = Some (Readable ?stream)" by simp
  have bytes: "stream_bytes ?stream = Some [104, 105, 33]" by simp
  have decoded: "decodeAscii [104, 105, 33] = ''hi!''" by (rule decodeAscii_example)
  from getFromS3_decodes [of decodeAscii ?svc "()" "''bkt''" "''a.txt''" ?response "()" ?stream
      "[104, 105, 33]"] send body bytes decoded
  show ?thesis by simp
qed

text \<open>
  C3. When the listing succeeds and names no keys (no \<^verbatim>\<open>Contents\<close>, or an empty one), or
  names keys none of which contains an underscore, the method resolves to \<^verbatim>\<open>undefined\<close>,
  the "not found" result, and throws nothing.
\<close>

theorem getMostRecentFile_none_found:
  assumes "s3Client this st (ListObjectsV2Command bucketName prefix) = (Inr response, st')"
    and "Contents response = None
         \<or> (\<exists>contents. Contents response = Some contents
               \<and> (\<forall>item \<in> set contents. CHR ''_'' \<notin> set (Key item)))"
  shows "getMostRecentFile dateParse this st bucketName prefix = (Inr None, st')"
proof (cases "Contents response")
  case None
  with assms(1) show ?thesis by (simp add: getMostRecentFile_def)
next
  case (Some contents)
  with assms(2) have "\<forall>item \<in> set contents. CHR ''_'' \<notin> set (Key item)" by simp
  then have "filesOf contents = []" by (simp add: filesOf_empty)
  with getMostRecentFile_listed [OF assms(1) Some, of dateParse] show ?thesis by simp
qed

text \<open>A listing of two keys without an underscore.\<close>

theorem getMostRecentFile_none_found_witness:
  "s3Client \<lparr>s3Client = answering (Inr (ListObjectsV2CommandOutput
                 (Some [S3Object ''notes.txt'', S3Object ''report.pdf'']))),
             region = ''eu-west-1''\<rparr> () (ListObjectsV2Command ''bkt'' '''')
     = (Inr (ListObjectsV2CommandOutput (Some [S3Object ''notes.txt'', S3Object ''report.pdf''])), ())
   \<and> filesOf [S3Object ''notes.txt'', S3Object ''report.pdf''] = []
   \<and> getMostRecentFile isoDate
        \<lparr>s3Client = answering (Inr (ListObjectsV2CommandOutput
                 (Some [S3Object ''notes.txt'', S3Object ''report.pdf'']))),
          region = ''eu-west-1''\<rparr> () ''bkt'' '''' = (Inr None, ())"
proof -
  let ?response = "ListObjectsV2CommandOutput (Some [S3Object ''notes.txt'', S3Object ''report.pdf''])"
  let ?svc = "\<lparr>s3Client = answering (Inr ?response), region = ''eu-west-1''\<rparr>"
  have send: "s3Client ?svc () (ListObjectsV2Command ''bkt'' '''') = (Inr ?response, ())"
    by (simp add: answering_def)
  have none: "Contents ?response = None
         \<or> (\<exists>contents. Contents ?response = Some contents
               \<and> (\<forall>item \<in> set contents. CHR ''_'' \<notin> set (Key item)))"
    by simp
  have files: "filesOf [S3Object ''notes.txt'', S3Object ''report.pdf''] = []"
    by (simp add: filesOf_def js_includes_def)
  from getMostRecentFile_none_found [OF send none, of isoDate] send files
  show ?thesis by simp
qed

text \<open>
  C4, as the code has it. The method leaves out every listed key without an underscore: a
  key it returns is a listed key that contains one. When the extracted date of every listed
  key with an underscore parses (\<open>t\<close> names the time values) and there is such a key, the
  key returned is one whose extracted date is the latest: no listed key with an underscore
  has a later date. On the listing \<^verbatim>\<open>report.pdf\<close>, \<^verbatim>\<open>report_2024-01-01.pdf\<close>,
  \<^verbatim>\<open>report_2024-06-15.pdf\<close> the result is \<^verbatim>\<open>report_2024-06-15.pdf\<close>.
\<close>

theorem getMostRecentFile_latest_dated:
  assumes "s3Client this st (ListObjectsV2Command bucketName prefix) = (Inr response, st')"
    and "Contents response = Some contents"
  shows "(\<forall>r. getMostRecentFile dateParse this st bucketName prefix = (Inr (Some r), st')
            \<longrightarrow> r \<in> Key ` set contents \<and> CHR ''_'' \<in> set r)
       \<and> ((\<forall>item \<in> set contents. CHR ''_'' \<in> set (Key item)
               \<longrightarrow> extractDate dateParse (Key item) = Some (t (Key item)))
            \<and> (\<exists>item \<in> set contents. CHR ''_'' \<in> set (Key item))
          \<longrightarrow> (\<exists>r. getMostRecentFile dateParse this st bucketName prefix = (Inr (Some r), st')
                 \<and> (\<forall>item \<in> set contents. CHR ''_'' \<in> set (Key item)
                       \<longrightarrow> t (Key item) \<le> t r)))"
proof (intro conjI allI impI)
  fix r
  assume "getMostRecentFile dateParse this st bucketName prefix = (Inr (Some r), st')"
  with getMostRecentFile_listed [OF assms, of dateParse]
  have "first_element (js_sort (compareFiles dateParse) (filesOf contents)) = Some r" by simp
  then have "r \<in> set (filesOf contents)"
    using first_element_mem set_js_sort by fastforce
  then show "r \<in> Key ` set contents" and "CHR ''_'' \<in> set r"
    by (simp_all add: filesOf_iff)
next
  assume dated: "(\<forall>item \<in> set contents. CHR ''_'' \<in> set (Key item)
               \<longrightarrow> extractDate dateParse (Key item) = Some (t (Key item)))
            \<and> (\<exists>item \<in> set contents. CHR ''_'' \<in> set (Key item))"
  have all: "\<forall>k \<in> set (filesOf contents). extractDate dateParse k = Some (t k)"
    using dated by (auto simp add: filesOf_iff)
  have "filesOf contents \<noteq> []" using dated by (simp add: filesOf_empty)
  from js_sort_first_latest [OF all this] obtain pre r post where
    split: "filesOf contents = pre @ r # post"
    and first: "first_element (js_sort (compareFiles dateParse) (filesOf contents)) = Some r"
    and before: "\<forall>k \<in> set pre. t k < t r" and after: "\<forall>k \<in> set post. t k \<le> t r"
    by blast
  have latest: "\<forall>k \<in> set (filesOf contents). t k \<le> t r"
    using split before after by fastforce
  with first getMostRecentFile_listed [OF assms, of dateParse]
  show "\<exists>r. getMostRecentFile dateParse this st bucketName prefix = (Inr (Some r), st')
                 \<and> (\<forall>item \<in> set contents. CHR ''_'' \<in> set (Key item)
                       \<longrightarrow> t (Key item) \<le> t r)"
    by (auto simp add: filesOf_iff)
qed

text \<open>The listing of three reports, with the date-only parser.\<close>

theorem getMostRecentFile_latest_dated_witness:
  "getMostRecentFile isoDate
     \<lparr>s3Client = answering (Inr (ListObjectsV2CommandOutput
        (Some [S3Object ''report.pdf'', S3Object ''report_2024-01-01.pdf'',
               S3Object ''report_2024-06-15.pdf'']))),
       region = ''eu-west-1''\<rparr> () ''bkt'' ''report''
     = (Inr (Some ''report_2024-06-15.pdf''), ())"
proof -
  let ?contents = "[S3Object ''report.pdf'', S3Object ''report_2024-01-01.pdf'',
                    S3Object ''report_2024-06-15.pdf'']"
  let ?response = "ListObjectsV2CommandOutput (Some ?contents)"
  let ?svc = "\<lparr>s3Client = answering (Inr ?response), region = ''eu-west-1''\<rparr>"
  let ?t = "\<lambda>key. case extractDate isoDate key of Some v \<Rightarrow> v | None \<Rightarrow> 0"
  have send: "s3Client ?svc () (ListObjectsV2Command ''bkt'' ''report'') = (Inr ?response, ())"
    by (simp add: answering_def)
  have contents: "Contents ?response = Some ?contents" by simp
  have dated: "(\<forall>item \<in> set ?contents. CHR ''_'' \<in> set (Key item)
                 \<longrightarrow> extractDate isoDate (Key item) = Some (?t (Key item)))
             \<and> (\<exists>item \<in> set ?contents. CHR ''_'' \<in> set (Key item))"
    by (simp add: extractDate_def example_slices example_dates)
  from getMostRecentFile_latest_dated [OF send contents, of isoDate ?t] dated obtain r where
    result: "getMostRecentFile isoDate ?svc () ''bkt'' ''report'' = (Inr (Some r), ())"
    and latest: "\<forall>item \<in> set ?contents. CHR ''_'' \<in> set (Key item) \<longrightarrow> ?t (Key item) \<le> ?t r"
    by blast
  from getMostRecentFile_latest_dated [OF send contents, of isoDate ?t] result
  have listed: "r \<in> Key ` set ?contents" and underscore: "CHR ''_'' \<in> set r"
    by blast+
  from listed have "r = ''report.pdf'' \<or> r = ''report_2024-01-01.pdf'' \<or> r = ''report_2024-06-15.pdf''"
    by simp
  moreover from underscore have "r \<noteq> ''report.pdf''" by auto
  moreover from latest have "?t ''report_2024-06-15.pdf'' \<le> ?t r" by simp
  then have "r \<noteq> ''report_2024-01-01.pdf''"
    by (auto simp add: extractDate_def example_slices example_dates)
  ultimately have "r = ''report_2024-06-15.pdf''" by blast
  with result show ?thesis by simp
qed

text \<open>
  C4, as stated, has no condition on the dates. A key with an underscore whose extracted
  characters are not a date compares as equal to every other key, since the difference with
  \<^verbatim>\<open>NaN\<close> is \<^verbatim>\<open>NaN\<close>, and stays where the listing put it. Listed first, it is returned,
  although the other key is the one with a date. Every comparison of this listing gives
  \<open>0\<close>, so the comparator is consistent and every stable sort keeps the listed order.
\<close>

theorem undated_key_returned:
  "getMostRecentFile isoDate
     \<lparr>s3Client = answering (Inr (ListObjectsV2CommandOutput
        (Some [S3Object ''a_b.pdf'', S3Object ''report_2024-01-01.pdf'']))),
       region = ''eu-west-1''\<rparr> () ''bkt'' ''''
     = (Inr (Some ''a_b.pdf''), ())
   \<and> extractDate isoDate ''a_b.pdf'' = None
   \<and> extractDate isoDate ''report_2024-01-01.pdf'' = Some 1704067200000"
  by (simp add: getMostRecentFile_def answering_def filesOf_def js_includes_def
      sortCompare_def compareFiles_def js_minus_def extractDate_def
      example_slices example_dates undated_slice undated_date)

text \<open>
  C5. For a key \<open>k\<close> that the underscore filter retains and that has at least 14 characters,
  the method takes the date it sorts \<open>k\<close> by from exactly the 10 characters at the positions
  \<open>length - 14\<close> to \<open>length - 5\<close>, which end 4 characters before the end of the key.
  The window has 10 characters; the result of the method does not change when the parser is
  replaced by one that gives the same value on this window and the same dates for the other
  retained keys, so nothing else of \<open>k\<close> is read; and when the window parses to a date
  later than the date of every other retained key, the method returns \<open>k\<close>, wherever the
  listing names it.
\<close>

theorem getMostRecentFile_date_window:
  assumes "s3Client this st (ListObjectsV2Command bucketName prefix) = (Inr response, st')"
    and "Contents response = Some contents"
    and "k \<in> set (filesOf contents)" and "14 \<le> length k"
  shows "length (dateWindow k) = 10
       \<and> (\<forall>other. other (dateWindow k) = dateParse (dateWindow k)
              \<and> (\<forall>key \<in> set (filesOf contents). key \<noteq> k
                    \<longrightarrow> extractDate other key = extractDate dateParse key)
            \<longrightarrow> getMostRecentFile other this st bucketName prefix
                  = getMostRecentFile dateParse this st bucketName prefix)
       \<and> (\<forall>tk. dateParse (dateWindow k) = Some tk
              \<and> (\<forall>key \<in> set (filesOf contents). key \<noteq> k
                    \<longrightarrow> (\<exists>t'. extractDate dateParse key = Some t' \<and> t' < tk))
            \<longrightarrow> getMostRecentFile dateParse this st bucketName prefix = (Inr (Some k), st'))"
proof (intro conjI allI impI)
  show "length (dateWindow k) = 10" using assms(4) by (rule dateWindow_long)
next
  fix other
  assume agree: "other (dateWindow k) = dateParse (dateWindow k)
              \<and> (\<forall>key \<in> set (filesOf contents). key \<noteq> k
                    \<longrightarrow> extractDate other key = extractDate dateParse key)"
  have "\<forall>key \<in> set (filesOf contents). other (clampedWindow key) = dateParse (clampedWindow key)"
  proof
    fix key assume key: "key \<in> set (filesOf contents)"
    show "other (clampedWindow key) = dateParse (clampedWindow key)"
    proof (cases "key = k")
      case True
      with agree dateWindow_long(1) [OF assms(4)] show ?thesis by simp
    next
      case False
      with agree key have "extractDate other key = extractDate dateParse key" by simp
      then show ?thesis by (simp add: extractDate_def js_slice_clampedWindow)
    qed
  qed
  with assms(1,2) show "getMostRecentFile other this st bucketName prefix
                  = getMostRecentFile dateParse this st bucketName prefix"
    by (rule getMostRecentFile_parser)
next
  fix tk
  assume latest: "dateParse (dateWindow k) = Some tk
              \<and> (\<forall>key \<in> set (filesOf contents). key \<noteq> k
                    \<longrightarrow> (\<exists>t'. extractDate dateParse key = Some t' \<and> t' < tk))"
  have tk: "dateParse (clampedWindow k) = Some tk"
    using latest dateWindow_long(1) [OF assms(4)] by simp
  have others: "\<forall>key \<in> set (filesOf contents). key \<noteq> k
                   \<longrightarrow> (\<exists>t'. dateParse (clampedWindow key) = Some t' \<and> t' < tk)"
    using latest by (simp add: extractDate_def js_slice_clampedWindow)
  from assms(1,2,3) tk others
  show "getMostRecentFile dateParse this st bucketName prefix = (Inr (Some k), st')"
    by (rule getMostRecentFile_winner)
qed

text \<open>
  A key listed second whose window holds the later date is returned; the date at the front of
  the first key is not read.
\<close>

theorem getMostRecentFile_date_window_witness:
  "14 \<le> length ''report_2024-06-15.pdf''
   \<and> dateWindow ''report_2024-06-15.pdf'' = ''2024-06-15''
   \<and> extractDate isoDate ''2030-01-01_report_2024-01-01.pdf'' = Some 1704067200000
   \<and> getMostRecentFile isoDate
        \<lparr>s3Client = answering (Inr (ListObjectsV2CommandOutput
           (Some [S3Object ''2030-01-01_report_2024-01-01.pdf'',
                  S3Object ''report_2024-06-15.pdf'']))),
          region = ''eu-west-1''\<rparr> () ''bkt'' ''''
       = (Inr (Some ''report_2024-06-15.pdf''), ())"
proof -
  let ?contents = "[S3Object ''2030-01-01_report_2024-01-01.pdf'',
                    S3Object ''report_2024-06-15.pdf'']"
  let ?response = "ListObjectsV2CommandOutput (Some ?contents)"
  let ?svc = "\<lparr>s3Client = answering (Inr ?response), region = ''eu-west-1''\<rparr>"
  let ?k = "''report_2024-06-15.pdf''"
  have send: "s3Client ?svc () (ListObjectsV2Command ''bkt'' '''') = (Inr ?response, ())"
    by (simp add: answering_def)
  have contents: "Contents ?response = Some ?contents" by simp
  have files: "filesOf ?contents = [''2030-01-01_report_2024-01-01.pdf'', ?k]"
    by (simp add: filesOf_def js_includes_def)
  have kept: "?k \<in> set (filesOf ?contents)" by (simp add: files)
  have long: "14 \<le> length ?k" by simp
  have window: "dateWindow ?k = ''2024-06-15''"
    using dateWindow_long(1) [OF long] by (simp add: window_examples)
  have older: "extractDate isoDate ''2030-01-01_report_2024-01-01.pdf'' = Some 1704067200000"
    by (simp add: extractDate_def js_slice_clampedWindow window_examples example_dates)
  have latest: "isoDate (dateWindow ?k) = Some 1718409600000
      \<and> (\<forall>key \<in> set (filesOf ?contents). key \<noteq> ?k
            \<longrightarrow> (\<exists>t'. extractDate isoDate key = Some t' \<and> t' < 1718409600000))"
    by (simp add: files window older example_dates)
  from getMostRecentFile_date_window [OF send contents kept long, of isoDate] latest
  have "getMostRecentFile isoDate ?svc () ''bkt'' '''' = (Inr (Some ?k), ())"
    by blast
  with long window older show ?thesis by simp
qed

text \<open>
  C6, as the code has it. When the extracted date of every listed key with an underscore
  parses and several of these keys share the latest date, the method returns the one of them
  that the listing names first: for any key \<open>a\<close> whose date is the latest, the result is
  the first listed key whose extracted date equals that of \<open>a\<close>. The method is a function
  of the listing, so two runs on the same listing give the same key.
\<close>

theorem getMostRecentFile_tie:
  assumes "s3Client this st (ListObjectsV2Command bucketName prefix) = (Inr response, st')"
    and "Contents response = Some contents"
    and dated: "\<forall>key \<in> set (filesOf contents). extractDate dateParse key = Some (t key)"
    and a: "a \<in> set (filesOf contents)"
    and latest: "\<forall>key \<in> set (filesOf contents). t key \<le> t a"
  shows "getMostRecentFile dateParse this st bucketName prefix
           = (Inr (List.find (\<lambda>key. extractDate dateParse key = extractDate dateParse a)
                     (filesOf contents)), st')"
proof -
  have "filesOf contents \<noteq> []" using a by auto
  from js_sort_first_latest [OF dated this] obtain pre r post where
    split: "filesOf contents = pre @ r # post"
    and first: "first_element (js_sort (compareFiles dateParse) (filesOf contents)) = Some r"
    and before: "\<forall>k \<in> set pre. t k < t r" and after: "\<forall>k \<in> set post. t k \<le> t r"
    by blast
  have r: "r \<in> set (filesOf contents)" using split by simp
  have "a \<in> set pre \<or> a = r \<or> a \<in> set post" using a split by auto
  then have "t a \<le> t r" using before after by auto
  moreover have "t r \<le> t a" using latest r by simp
  ultimately have eq: "t r = t a" by simp
  have same: "\<And>k. k \<in> set (filesOf contents)
        \<Longrightarrow> (extractDate dateParse k = extractDate dateParse a) = (t k = t a)"
    using dated a by simp
  have "pre = take (length pre) (filesOf contents)" using split by simp
  have pre_in: "set pre \<subseteq> set (filesOf contents)" using split by auto
  have "List.find (\<lambda>key. extractDate dateParse key = extractDate dateParse a) (filesOf contents) = Some r"
  proof (rule find_first [OF split])
    show "extractDate dateParse r = extractDate dateParse a" using same [OF r] eq by simp
    show "\<forall>k \<in> set pre. extractDate dateParse k \<noteq> extractDate dateParse a"
    proof
      fix k assume k: "k \<in> set pre"
      then have "t k < t a" using before eq by simp
      moreover have "k \<in> set (filesOf contents)" using k pre_in by auto
      ultimately show "extractDate dateParse k \<noteq> extractDate dateParse a"
        using same by simp
    qed
  qed
  with first getMostRecentFile_listed [OF assms(1,2), of dateParse] show ?thesis by simp
qed

text \<open>Two keys of 15 June 2024: the one listed first is returned.\<close>

theorem getMostRecentFile_tie_witness:
  "getMostRecentFile isoDate
     \<lparr>s3Client = answering (Inr (ListObjectsV2CommandOutput
        (Some [S3Object ''report_2024-01-01.pdf'', S3Object ''backup_2024-06-15.pdf'',
               S3Object ''report_2024-06-15.pdf'']))),
       region = ''eu-west-1''\<rparr> () ''bkt'' ''''
     = (Inr (Some ''backup_2024-06-15.pdf''), ())"
proof -
  let ?contents = "[S3Object ''report_2024-01-01.pdf'', S3Object ''backup_2024-06-15.pdf'',
                    S3Object ''report_2024-06-15.pdf'']"
  let ?response = "ListObjectsV2CommandOutput (Some ?contents)"
  let ?svc = "\<lparr>s3Client = answering (Inr ?response), region = ''eu-west-1''\<rparr>"
  let ?t = "\<lambda>key. case extractDate isoDate key of Some v \<Rightarrow> v | None \<Rightarrow> 0"
  have send: "s3Client ?svc () (ListObjectsV2Command ''bkt'' '''') = (Inr ?response, ())"
    by (simp add: answering_def)
  have contents: "Contents ?response = Some ?contents" by simp
  have files: "filesOf ?contents = [''report_2024-01-01.pdf'', ''backup_2024-06-15.pdf'',
                                    ''report_2024-06-15.pdf'']"
    by (simp add: filesOf_def js_includes_def)
  have dated: "\<forall>key \<in> set (filesOf ?contents). extractDate isoDate key = Some (?t key)"
    by (simp add: files extractDate_def example_slices example_dates)
  have a: "''report_2024-06-15.pdf'' \<in> set (filesOf ?contents)" by (simp add: files)
  have latest: "\<forall>key \<in> set (filesOf ?contents). ?t key \<le> ?t ''report_2024-06-15.pdf''"
    by (simp add: files extractDate_def example_slices example_dates)
  from getMostRecentFile_tie [OF send contents dated a latest]
  show ?thesis
    by (simp add: files extractDate_def example_slices example_dates)
qed

text \<open>
  C6, as stated, has no condition on the other keys. With a key listed first whose
  extracted characters are not a date, two keys share the latest date and the method returns
  neither of them. Every comparison of this listing gives \<open>0\<close>, so every stable sort keeps
  the listed order.
\<close>

theorem undated_key_before_tie:
  "getMostRecentFile isoDate
     \<lparr>s3Client = answering (Inr (ListObjectsV2CommandOutput
        (Some [S3Object ''a_b.pdf'', S3Object ''report_2024-06-15.pdf'',
               S3Object ''summary_2024-06-15.pdf'']))),
       region = ''eu-west-1''\<rparr> () ''bkt'' ''''
     = (Inr (Some ''a_b.pdf''), ())
   \<and> extractDate isoDate ''a_b.pdf'' = None
   \<and> js_slice ''report_2024-06-15.pdf'' (- 14) (- 4) = ''2024-06-15''
   \<and> js_slice ''summary_2024-06-15.pdf'' (- 14) (- 4) = ''2024-06-15''
   \<and> isoDate ''2024-06-15'' = Some 1718409600000"
  by (simp add: getMostRecentFile_def answering_def filesOf_def js_includes_def
      sortCompare_def compareFiles_def js_minus_def extractDate_def
      example_dates undated_slice undated_date js_slice_def)

text \<open>
  C7, as the code has it. When the \<^verbatim>\<open>send\<close> of the upload fails, the upload throws an
  \<^verbatim>\<open>Error\<close> whose message is \<^verbatim>\<open>Error uploading to S3: \<close> followed by the message of
  the cause, and it makes no other request: the remote store is left in the state in which
  the failed \<^verbatim>\<open>send\<close> left it, the state before the call when the failed \<^verbatim>\<open>send\<close> changed
  nothing.
\<close>

theorem upload_failure_wrapped:
  assumes "s3Client this st (PutObjectCommand bucketName filePath payload mimeType) = (Inl err, st')"
  shows "uploadToS3 this st bucketName filePath payload mimeType
           = (Inl (new_Error (''Error uploading to S3: '' @ message err)), st')"
  using assms by (simp add: uploadToS3_def)

text \<open>An upload that the store refuses.\<close>

theorem upload_failure_wrapped_witness:
  "s3Client \<lparr>s3Client = answering (Inl (JsError ''AccessDenied'' ''Access Denied'')),
             region = ''eu-west-1''\<rparr> ()
       (PutObjectCommand ''bkt'' ''a.txt'' [104, 105] ''text/plain'')
     = (Inl (JsError ''AccessDenied'' ''Access Denied''), ())
   \<and> uploadToS3 \<lparr>s3Client = answering (Inl (JsError ''AccessDenied'' ''Access Denied'')),
                 region = ''eu-west-1''\<rparr> () ''bkt'' ''a.txt'' [104, 105] ''text/plain''
     = (Inl (JsError ''Error'' ''Error uploading to S3: Access Denied''), ())"
proof -
  let ?svc = "\<lparr>s3Client = answering (Inl (JsError ''AccessDenied'' ''Access Denied'')),
                 region = ''eu-west-1''\<rparr>"
  have send: "s3Client ?svc () (PutObjectCommand ''bkt'' ''a.txt'' [104, 105] ''text/plain'')
                = (Inl (JsError ''AccessDenied'' ''Access Denied''), ())"
    by (simp add: answering_def)
  from upload_failure_wrapped [OF send] send show ?thesis
    by (simp add: new_Error_def)
qed

text \<open>
  C7, as stated, says that the object at the bucket and key is unchanged whenever the
  \<^verbatim>\<open>send\<close> of the upload fails. The wrapper has no rollback and cannot promise this: behind a
  connection that loses the acknowledgement the \<^verbatim>\<open>send\<close> fails, the upload throws the
  wrapped error, and the object is there afterwards although it was not there before.
\<close>

theorem upload_failure_store_changed:
  "fst (s3Client \<lparr>s3Client = lostReplyClient, region = ''eu-west-1''\<rparr> []
          (PutObjectCommand ''bkt'' ''a.txt'' [104, 105] ''text/plain''))
     = Inl (JsError ''TimeoutError'' ''socket hang up'')
   \<and> fst (uploadToS3 \<lparr>s3Client = lostReplyClient, region = ''eu-west-1''\<rparr> []
            ''bkt'' ''a.txt'' [104, 105] ''text/plain'')
     = Inl (JsError ''Error'' ''Error uploading to S3: socket hang up'')
   \<and> map_of [] (''bkt'', ''a.txt'') = (None :: bytes option)
   \<and> map_of (snd (uploadToS3 \<lparr>s3Client = lostReplyClient, region = ''eu-west-1''\<rparr> []
                    ''bkt'' ''a.txt'' [104, 105] ''text/plain'')) (''bkt'', ''a.txt'')
     = Some [104, 105]"
  by (simp add: uploadToS3_def new_Error_def putObject_def)

text \<open>
  C8. When the request of a download succeeds and the body of the response is not a
  \<^verbatim>\<open>Readable\<close> (another value, or none at all), the text download and the binary download
  both throw the wrapped error whose message is
  \<^verbatim>\<open>Error retrieving from S3: Unexpected response body type\<close>.
\<close>

theorem download_unexpected_body:
  assumes "s3Client this st (GetObjectCommand bucketName filePath) = (Inr response, st')"
    and "\<forall>stream. Body response \<noteq> Some (Readable stream)"
  shows "getFromS3 toString this st bucketName filePath
           = (Inl (new_Error ''Error retrieving from S3: Unexpected response body type''), st')
       \<and> getFromS3AsBinary this st bucketName filePath
           = (Inl (new_Error ''Error retrieving from S3: Unexpected response body type''), st')"
  using assms
  by (simp add: getFromS3_def getFromS3AsBinary_def Let_def new_Error_def
      split: option.split body.split)

text \<open>A response whose body is not a Node stream.\<close>

theorem download_unexpected_body_witness:
  "s3Client \<lparr>s3Client = answering (Inr (GetObjectCommandOutput (Some NotReadable))), region = ''eu-west-1''\<rparr>
       () (GetObjectCommand ''bkt'' ''a.txt'')
     = (Inr (GetObjectCommandOutput (Some NotReadable)), ())
   \<and> (\<forall>stream. Body (GetObjectCommandOutput (Some NotReadable)) \<noteq> Some (Readable stream))
   \<and> getFromS3 (map (\<lambda>b. char_of (unat b)))
        \<lparr>s3Client = answering (Inr (GetObjectCommandOutput (Some NotReadable))), region = ''eu-west-1''\<rparr>
        () ''bkt'' ''a.txt''
     = (Inl (JsError ''Error'' ''Error retrieving from S3: Unexpected response body type''), ())
   \<and> getFromS3AsBinary
        \<lparr>s3Client = answering (Inr (GetObjectCommandOutput (Some NotReadable))), region = ''eu-west-1''\<rparr>
        () ''bkt'' ''a.txt''
     = (Inl (JsError ''Error'' ''Error retrieving from S3: Unexpected response body type''), ())"
proof -
  have send: "s3Client \<lparr>s3Client = answering (Inr (GetObjectCommandOutput (Some NotReadable))), region = ''eu-west-1''\<rparr>
       () (GetObjectCommand ''bkt'' ''a.txt'')
     = (Inr (GetObjectCommandOutput (Some NotReadable)), ())"
    by (simp add: answering_def)
  have shape: "\<forall>stream. Body (GetObjectCommandOutput (Some NotReadable)) \<noteq> Some (Readable stream)"
    by simp
  from download_unexpected_body [OF send shape, of "map (\<lambda>b. char_of (unat b))"] send shape
  show ?thesis by (simp add: new_Error_def)
qed

text \<open>
  C9. The method throws exactly when the listing call throws, and what it throws is the
  error of the listing call itself, not a wrapped one.
\<close>

theorem getMostRecentFile_fails_with_listing:
  "fst (getMostRecentFile dateParse this st bucketName prefix) = Inl err
     \<longleftrightarrow> fst (s3Client this st (ListObjectsV2Command bucketName prefix)) = Inl err"
  by (simp add: getMostRecentFile_def Let_def split: prod.split sum.split option.split)

text \<open>A listing that the store refuses.\<close>

theorem getMostRecentFile_fails_with_listing_witness:
  "fst (getMostRecentFile isoDate
          \<lparr>s3Client = answering (Inl (JsError ''AccessDenied'' ''Access Denied'')),
            region = ''eu-west-1''\<rparr> () ''bkt'' ''report'')
     = Inl (JsError ''AccessDenied'' ''Access Denied'')"
proof -
  let ?svc = "\<lparr>s3Client = answering (Inl (JsError ''AccessDenied'' ''Access Denied'')),
                 region = ''eu-west-1''\<rparr>"
  have "fst (s3Client ?svc () (ListObjectsV2Command ''bkt'' ''report''))
          = Inl (JsError ''AccessDenied'' ''Access Denied'')"
    by (simp add: answering_def)
  then show ?thesis
    by (simp only: getMostRecentFile_fails_with_listing)
qed

text \<open>
  C10. A listed key that contains an underscore and has fewer than 14 characters is not
  skipped and raises no error. The method resolves to a key. The date it sorts the short key
  by is parsed from the clamped substring from position \<open>max 0 (length - 14)\<close> to
  \<open>length - 4\<close>, which has fewer than 10 characters: the result of the method does not
  change when the parser is replaced by one that gives the same value on this substring and
  the same dates for the other retained keys; and when the substring parses to a date later
  than the date of every other retained key, the method returns the short key, wherever the
  listing names it.
\<close>

theorem short_key_sorted:
  assumes "s3Client this st (ListObjectsV2Command bucketName prefix) = (Inr response, st')"
    and "Contents response = Some contents"
    and "item \<in> set contents" and "CHR ''_'' \<in> set (Key item)" and "length (Key item) < 14"
  shows "(\<exists>r. getMostRecentFile dateParse this st bucketName prefix = (Inr (Some r), st'))
       \<and> length (clampedWindow (Key item)) < 10
       \<and> (\<forall>other. other (clampedWindow (Key item)) = dateParse (clampedWindow (Key item))
              \<and> (\<forall>key \<in> set (filesOf contents). key \<noteq> Key item
                    \<longrightarrow> extractDate other key = extractDate dateParse key)
            \<longrightarrow> getMostRecentFile other this st bucketName prefix
                  = getMostRecentFile dateParse this st bucketName prefix)
       \<and> (\<forall>tk. dateParse (clampedWindow (Key item)) = Some tk
              \<and> (\<forall>key \<in> set (filesOf contents). key \<noteq> Key item
                    \<longrightarrow> (\<exists>t'. extractDate dateParse key = Some t' \<and> t' < tk))
            \<longrightarrow> getMostRecentFile dateParse this st bucketName prefix
                  = (Inr (Some (Key item)), st'))"
proof (intro conjI allI impI)
  have kept: "Key item \<in> set (filesOf contents)" using assms(3,4) by (auto simp add: filesOf_iff)
  then have "js_sort (compareFiles dateParse) (filesOf contents) \<noteq> []"
    by (metis set_js_sort empty_iff list.set(1))
  then obtain r where "first_element (js_sort (compareFiles dateParse) (filesOf contents)) = Some r"
    by (cases "js_sort (compareFiles dateParse) (filesOf contents)") auto
  with getMostRecentFile_listed [OF assms(1,2), of dateParse]
  show "\<exists>r. getMostRecentFile dateParse this st bucketName prefix = (Inr (Some r), st')"
    by simp
next
  show "length (clampedWindow (Key item)) < 10" using assms(5) by (rule clampedWindow_short)
next
  fix other
  assume agree: "other (clampedWindow (Key item)) = dateParse (clampedWindow (Key item))
              \<and> (\<forall>key \<in> set (filesOf contents). key \<noteq> Key item
                    \<longrightarrow> extractDate other key = extractDate dateParse key)"
  have "\<forall>key \<in> set (filesOf contents). other (clampedWindow key) = dateParse (clampedWindow key)"
  proof
    fix key assume key: "key \<in> set (filesOf contents)"
    show "other (clampedWindow key) = dateParse (clampedWindow key)"
    proof (cases "key = Key item")
      case True
      with agree show ?thesis by simp
    next
      case False
      with agree key have "extractDate other key = extractDate dateParse key" by simp
      then show ?thesis by (simp add: extractDate_def js_slice_clampedWindow)
    qed
  qed
  with assms(1,2) show "getMostRecentFile other this st bucketName prefix
                  = getMostRecentFile dateParse this st bucketName prefix"
    by (rule getMostRecentFile_parser)
next
  fix tk
  assume latest: "dateParse (clampedWindow (Key item)) = Some tk
              \<and> (\<forall>key \<in> set (filesOf contents). key \<noteq> Key item
                    \<longrightarrow> (\<exists>t'. extractDate dateParse key = Some t' \<and> t' < tk))"
  have kept: "Key item \<in> set (filesOf contents)" using assms(3,4) by (auto simp add: filesOf_iff)
  have tk: "dateParse (clampedWindow (Key item)) = Some tk" using latest by simp
  have others: "\<forall>key \<in> set (filesOf contents). key \<noteq> Key item
                   \<longrightarrow> (\<exists>t'. dateParse (clampedWindow key) = Some t' \<and> t' < tk)"
    using latest by (simp add: extractDate_def js_slice_clampedWindow)
  from assms(1,2) kept tk others
  show "getMostRecentFile dateParse this st bucketName prefix = (Inr (Some (Key item)), st')"
    by (rule getMostRecentFile_winner)
qed

text \<open>
  A key of eight characters listed second: its clamped substring is the year \<^verbatim>\<open>2025\<close>,
  later than the date of the first key, and it is returned.
\<close>

theorem short_key_sorted_witness:
  "length ''2025_old'' < 14
   \<and> clampedWindow ''2025_old'' = ''2025''
   \<and> js_slice ''2025_old'' (- 14) (- 4) = ''2025''
   \<and> extractDate isoYearOrDate ''1999_2024-06-15.pdf'' = Some 1718409600000
   \<and> isoYearOrDate ''2025'' = Some 1735689600000
   \<and> getMostRecentFile isoYearOrDate
        \<lparr>s3Client = answering (Inr (ListObjectsV2CommandOutput
           (Some [S3Object ''1999_2024-06-15.pdf'', S3Object ''2025_old'']))),
          region = ''eu-west-1''\<rparr> () ''bkt'' ''''
       = (Inr (Some ''2025_old''), ())"
proof -
  let ?contents = "[S3Object ''1999_2024-06-15.pdf'', S3Object ''2025_old'']"
  let ?response = "ListObjectsV2CommandOutput (Some ?contents)"
  let ?svc = "\<lparr>s3Client = answering (Inr ?response), region = ''eu-west-1''\<rparr>"
  have send: "s3Client ?svc () (ListObjectsV2Command ''bkt'' '''') = (Inr ?response, ())"
    by (simp add: answering_def)
  have contents: "Contents ?response = Some ?contents" by simp
  have item: "S3Object ''2025_old'' \<in> set ?contents" by simp
  have underscore: "CHR ''_'' \<in> set (Key (S3Object ''2025_old''))" by simp
  have short: "length (Key (S3Object ''2025_old'')) < 14" by simp
  have files: "filesOf ?contents = [''1999_2024-06-15.pdf'', ''2025_old'']"
    by (simp add: filesOf_def js_includes_def)
  have slice: "js_slice ''2025_old'' (- 14) (- 4) = ''2025''"
    by (simp add: js_slice_clampedWindow window_examples)
  have older: "extractDate isoYearOrDate ''1999_2024-06-15.pdf'' = Some 1718409600000"
    by (simp add: extractDate_def js_slice_clampedWindow window_examples year_examples)
  have latest: "isoYearOrDate (clampedWindow (Key (S3Object ''2025_old''))) = Some 1735689600000
      \<and> (\<forall>key \<in> set (filesOf ?contents). key \<noteq> Key (S3Object ''2025_old'')
            \<longrightarrow> (\<exists>t'. extractDate isoYearOrDate key = Some t' \<and> t' < 1735689600000))"
    by (simp add: files window_examples year_examples older)
  from short_key_sorted [OF send contents item underscore short, of isoYearOrDate] latest
  have "getMostRecentFile isoYearOrDate ?svc () ''bkt'' '''' = (Inr (Some ''2025_old''), ())"
    by simp
  with slice older show ?thesis by (simp add: window_examples year_examples)
qed

end
